theory Spec2Isabelle
  imports Complex_Main "HOL-Library.Sublist"
begin

section \<open>Strings\<close>

text \<open>
  The strings of \<^verbatim>\<open>src/App.tsx\<close> are sequences of code units. The model takes
  the code units of the Latin-1 range, which is what \<^typ>\<open>char\<close> holds (one
  \<^typ>\<open>char\<close> per code unit, values 0 to 255). The only string operations the
  component logic uses are the emptiness test \<^verbatim>\<open>!s\<close>, \<^verbatim>\<open>toLowerCase\<close>,
  \<^verbatim>\<open>includes\<close> and \<^verbatim>\<open>RegExp.test\<close>.
\<close>

type_synonym jsstring = string

text \<open>
  \<^verbatim>\<open>String.prototype.toLowerCase\<close> on the Latin-1 range: A to Z and the accented
  capitals 0xC0 to 0xDE (the multiplication sign 0xD7 apart) move up by 32.
\<close>

definition toLowerChar :: "char \<Rightarrow> char" where
  "toLowerChar c =
     (let n = (of_char c :: nat)
      in if (65 \<le> n \<and> n \<le> 90) \<or> (192 \<le> n \<and> n \<le> 222 \<and> n \<noteq> 215)
         then char_of (n + 32) else c)"

definition toLowerCase :: "jsstring \<Rightarrow> jsstring" where
  "toLowerCase s = map toLowerChar s"

text \<open>
  \<^verbatim>\<open>s.includes(sub)\<close>: some suffix of \<open>s\<close> starts with \<open>sub\<close>. (The source's name
  is a reserved word of the theory language, hence the suffix.)
\<close>

fun includes_str :: "jsstring \<Rightarrow> jsstring \<Rightarrow> bool" where
  "includes_str [] sub = (sub = [])"
| "includes_str (c # cs) sub = (prefix sub (c # cs) \<or> includes_str cs sub)"

section \<open>Regular expressions\<close>

text \<open>
  \<^verbatim>\<open>validateEmail\<close> tests its argument against a regular expression literal that is
  anchored at both ends and has no flags, no back references and no look-around, so
  \<^verbatim>\<open>re.test(s)\<close> is membership of the whole of \<open>s\<close> in the expression's language.
  The expression is kept as syntax (\<open>rexp\<close>) and matched by derivatives.
\<close>

datatype cls_item = Ch char | Range char char | Space

text \<open>The class escape \<^verbatim>\<open>\s\<close> on the Latin-1 range: TAB, LF, VT, FF, CR, SP, NBSP.\<close>

definition white_space :: "char list" where
  "white_space = map char_of [9, 10, 11, 12, 13, 32, 160 :: nat]"

fun item_matches :: "cls_item \<Rightarrow> char \<Rightarrow> bool" where
  "item_matches (Ch a) c = (c = a)"
| "item_matches (Range a b) c =
     ((of_char a :: nat) \<le> of_char c \<and> (of_char c :: nat) \<le> of_char b)"
| "item_matches Space c = (c \<in> set white_space)"

datatype rexp =
    Null
  | Eps
  | Class "cls_item list"
  | NotClass "cls_item list"
  | Dot
  | Alt rexp rexp
  | Seq rexp rexp
  | Star rexp

text \<open>The dot matches every code unit but the line terminators (LF and CR here).\<close>

definition line_terminator :: "char \<Rightarrow> bool" where
  "line_terminator c = (c = char_of (10 :: nat) \<or> c = char_of (13 :: nat))"

fun nullable :: "rexp \<Rightarrow> bool" where
  "nullable Null = False"
| "nullable Eps = True"
| "nullable (Class items) = False"
| "nullable (NotClass items) = False"
| "nullable Dot = False"
| "nullable (Alt r s) = (nullable r \<or> nullable s)"
| "nullable (Seq r s) = (nullable r \<and> nullable s)"
| "nullable (Star r) = True"

fun deriv :: "char \<Rightarrow> rexp \<Rightarrow> rexp" where
  "deriv c Null = Null"
| "deriv c Eps = Null"
| "deriv c (Class items) = (if list_ex (\<lambda>i. item_matches i c) items then Eps else Null)"
| "deriv c (NotClass items) = (if list_ex (\<lambda>i. item_matches i c) items then Null else Eps)"
| "deriv c Dot = (if line_terminator c then Null else Eps)"
| "deriv c (Alt r s) = Alt (deriv c r) (deriv c s)"
| "deriv c (Seq r s) =
     (if nullable r then Alt (Seq (deriv c r) s) (deriv c s) else Seq (deriv c r) s)"
| "deriv c (Star r) = Seq (deriv c r) (Star r)"

text \<open>\<^verbatim>\<open>/^r$/.test(s)\<close>.\<close>

definition test :: "rexp \<Rightarrow> jsstring \<Rightarrow> bool" where
  "test r s = nullable (foldl (\<lambda>r c. deriv c r) r s)"

text \<open>The quantifiers of the literal: \<^verbatim>\<open>c\<close>, \<^verbatim>\<open>r+\<close>, \<^verbatim>\<open>r{n}\<close>, \<^verbatim>\<open>r{n,m}\<close>, \<^verbatim>\<open>r{n,}\<close>.\<close>

definition Lit :: "char \<Rightarrow> rexp" where
  "Lit c = Class [Ch c]"

definition Plus :: "rexp \<Rightarrow> rexp" where
  "Plus r = Seq r (Star r)"

fun repeat :: "nat \<Rightarrow> rexp \<Rightarrow> rexp" where
  "repeat 0 r = Eps"
| "repeat (Suc n) r = Seq r (repeat n r)"

fun upto_times :: "nat \<Rightarrow> rexp \<Rightarrow> rexp" where
  "upto_times 0 r = Eps"
| "upto_times (Suc n) r = Alt Eps (Seq r (upto_times n r))"

definition Between :: "nat \<Rightarrow> nat \<Rightarrow> rexp \<Rightarrow> rexp" where
  "Between n m r = Seq (repeat n r) (upto_times (m - n) r)"

definition AtLeast :: "nat \<Rightarrow> rexp \<Rightarrow> rexp" where
  "AtLeast n r = Seq (repeat n r) (Star r)"

text \<open>
  The meaning of an expression as a set of strings, against which the matcher is proved
  right below (\<open>test_lang\<close>).
\<close>

definition conc :: "jsstring set \<Rightarrow> jsstring set \<Rightarrow> jsstring set" where
  "conc A B = {u @ v | u v. u \<in> A \<and> v \<in> B}"

inductive_set star :: "jsstring set \<Rightarrow> jsstring set" for A :: "jsstring set" where
  star_nil: "[] \<in> star A"
| star_app: "u \<in> A \<Longrightarrow> v \<in> star A \<Longrightarrow> u @ v \<in> star A"

fun lang :: "rexp \<Rightarrow> jsstring set" where
  "lang Null = {}"
| "lang Eps = {[]}"
| "lang (Class items) = {[c] | c. list_ex (\<lambda>i. item_matches i c) items}"
| "lang (NotClass items) = {[c] | c. \<not> list_ex (\<lambda>i. item_matches i c) items}"
| "lang Dot = {[c] | c. \<not> line_terminator c}"
| "lang (Alt r s) = lang r \<union> lang s"
| "lang (Seq r s) = conc (lang r) (lang s)"
| "lang (Star r) = star (lang r)"

definition dotted :: "jsstring set \<Rightarrow> bool" where
  "dotted L = (\<forall>w \<in> L. CHR ''.'' \<in> set w)"

section \<open>DemoModal: the form, validation and the mock transport\<close>

text \<open>
  \<^verbatim>\<open>useState({ name: '', email: '', organization: '', message: '' })\<close> (line 83).
\<close>

record form_data =
  name :: jsstring
  email :: jsstring
  organization :: jsstring
  message :: jsstring

text \<open>The \<^verbatim>\<open>name\<close> attributes of the four inputs (lines 137 to 140).\<close>

datatype field = Name | Email | Organization | Message

text \<open>\<^verbatim>\<open>setFormData({ ...formData, [e.target.name]: e.target.value })\<close> (lines 86 to 88).\<close>

fun handleChange :: "field \<Rightarrow> jsstring \<Rightarrow> form_data \<Rightarrow> form_data" where
  "handleChange Name v fd = fd\<lparr>name := v\<rparr>"
| "handleChange Email v fd = fd\<lparr>email := v\<rparr>"
| "handleChange Organization v fd = fd\<lparr>organization := v\<rparr>"
| "handleChange Message v fd = fd\<lparr>message := v\<rparr>"

text \<open>
  The literal of line 91, piece by piece:
  \<^item> \<open>atom\<close> is the negated class of the local part: none of
    \<^verbatim>\<open>< > ( ) [ ] \ . , ; : @ "\<close> and no white space;
  \<^item> \<open>local_part\<close> is dotted atoms, or a quoted string \<^verbatim>\<open>".+"\<close>;
  \<^item> \<open>ip_literal\<close> is four groups of one to three digits in brackets;
  \<^item> \<open>host_name\<close> is one or more labels each followed by a dot, then two or more
    letters.
\<close>

definition atom :: rexp where
  "atom = NotClass [Ch CHR ''<'', Ch CHR ''>'', Ch CHR ''('', Ch CHR '')'', Ch CHR ''['',
     Ch CHR '']'', Ch (CHR 0x5C), Ch CHR ''.'', Ch CHR '','', Ch CHR '';'', Ch CHR '':'',
     Space, Ch CHR ''@'', Ch (CHR 0x22)]"

definition digit :: rexp where
  "digit = Class [Range CHR ''0'' CHR ''9'']"

definition local_part :: rexp where
  "local_part =
     Alt (Seq (Plus atom) (Star (Seq (Lit CHR ''.'') (Plus atom))))
         (Seq (Lit (CHR 0x22)) (Seq (Plus Dot) (Lit (CHR 0x22))))"

definition ip_literal :: rexp where
  "ip_literal =
     Seq (Lit CHR ''['') (Seq (Between 1 3 digit) (Seq (Lit CHR ''.'')
    (Seq (Between 1 3 digit) (Seq (Lit CHR ''.'')
    (Seq (Between 1 3 digit) (Seq (Lit CHR ''.'')
    (Seq (Between 1 3 digit) (Lit CHR '']''))))))))"

definition host_name :: rexp where
  "host_name =
     Seq (Plus (Seq (Plus (Class [Range CHR ''a'' CHR ''z'', Range CHR ''A'' CHR ''Z'',
                                  Ch CHR ''-'', Range CHR ''0'' CHR ''9'']))
                    (Lit CHR ''.'')))
         (AtLeast 2 (Class [Range CHR ''a'' CHR ''z'', Range CHR ''A'' CHR ''Z'']))"

definition re :: rexp where
  "re = Seq local_part (Seq (Lit CHR ''@'') (Alt ip_literal host_name))"

text \<open>\<^verbatim>\<open>re.test(String(email).toLowerCase())\<close> (lines 90 to 93).\<close>

definition validateEmail :: "jsstring \<Rightarrow> bool" where
  "validateEmail email_address = test re (toLowerCase email_address)"

text \<open>
  The value \<^verbatim>\<open>sendEmail\<close> resolves to (lines 96 to 105). Its log line has no effect
  on the component; its 1500 ms delay is the gap between the two halves of
  \<^verbatim>\<open>handleSubmit\<close> below. (The form has a field called \<^verbatim>\<open>message\<close> too, hence
  \<open>result_message\<close>.)
\<close>

record send_result =
  success :: bool
  result_message :: jsstring

definition sendEmail :: "form_data \<Rightarrow> send_result" where
  "sendEmail data =
     (if includes_str (email data) ''fail''
      then \<lparr>success = False, result_message = ''Failed to send. Please try again.''\<rparr>
      else \<lparr>success = True, result_message = ''Successful, we'll get back to you soon!''\<rparr>)"

section \<open>DemoModal: the submission flow\<close>

text \<open>
  What the component does to the outside: it starts the transport, and it calls its two
  props \<^verbatim>\<open>showToast\<close> and \<^verbatim>\<open>onClose\<close>. The model records these calls in order.
\<close>

datatype toast_type = ToastSuccess | ToastError

datatype effect = SendEmail form_data | ShowToast toast_type jsstring | OnClose

text \<open>
  The state of a mounted \<^verbatim>\<open>DemoModal\<close>: its two \<^verbatim>\<open>useState\<close> cells, the
  arguments of the \<^verbatim>\<open>sendEmail\<close> calls that have not resolved yet (oldest first: every
  call waits the same 1500 ms), and the calls made so far.
\<close>

record demoModal =
  formData :: form_data
  isSending :: bool
  in_flight :: "form_data list"
  trace :: "effect list"

definition DemoModal_mount :: demoModal where
  "DemoModal_mount =
     \<lparr>formData = \<lparr>name = [], email = [], organization = [], message = []\<rparr>,
      isSending = False, in_flight = [], trace = []\<rparr>"

definition prop_showToast :: "toast_type \<Rightarrow> jsstring \<Rightarrow> demoModal \<Rightarrow> demoModal" where
  "prop_showToast ty msg s = s\<lparr>trace := trace s @ [ShowToast ty msg]\<rparr>"

definition prop_onClose :: "demoModal \<Rightarrow> demoModal" where
  "prop_onClose s = s\<lparr>trace := trace s @ [OnClose]\<rparr>"

text \<open>
  \<^verbatim>\<open>handleSubmit\<close> (lines 107 to 129) is an async function with one \<^verbatim>\<open>await\<close>.
  \<open>handleSubmit_begin\<close> is the part that runs when the submit event is handled: the two
  checks, each returning after its toast, then \<^verbatim>\<open>setIsSending(true)\<close> and the call
  of \<^verbatim>\<open>sendEmail(formData)\<close>. The handler does not read \<^verbatim>\<open>isSending\<close>.
\<close>

definition handleSubmit_begin :: "demoModal \<Rightarrow> demoModal" where
  "handleSubmit_begin s =
     (let fd = formData s in
      if name fd = [] \<or> email fd = [] \<or> organization fd = []
      then prop_showToast ToastError ''Please fill in all required fields.'' s
      else if \<not> validateEmail (email fd)
      then prop_showToast ToastError ''Please enter a valid email address.'' s
      else s\<lparr>isSending := True, in_flight := in_flight s @ [fd],
              trace := trace s @ [SendEmail fd]\<rparr>)"

text \<open>
  \<open>handleSubmit_resume\<close> is the part after the \<^verbatim>\<open>await\<close>, run with the value the
  transport resolved to: \<^verbatim>\<open>setIsSending(false)\<close>, then the toast, and
  \<^verbatim>\<open>onClose()\<close> on success only.
\<close>

definition handleSubmit_resume :: "send_result \<Rightarrow> demoModal \<Rightarrow> demoModal" where
  "handleSubmit_resume result s =
     (let s1 = s\<lparr>isSending := False\<rparr> in
      if success result
      then prop_onClose (prop_showToast ToastSuccess (result_message result) s1)
      else prop_showToast ToastError (result_message result) s1)"

text \<open>
  The submit button is rendered with \<^verbatim>\<open>disabled={isSending}\<close> (line 141). A form
  whose only submit button is disabled dispatches no submit event, neither on a click
  nor on Enter in a text input, so \<^verbatim>\<open>onSubmit={handleSubmit}\<close> (line 136) is reached
  only when the button is enabled.
\<close>

definition submit_disabled :: "demoModal \<Rightarrow> bool" where
  "submit_disabled s = isSending s"

definition form_submit :: "demoModal \<Rightarrow> demoModal" where
  "form_submit s = (if submit_disabled s then s else handleSubmit_begin s)"

text \<open>
  What can happen to a mounted modal: the user edits a field, the user triggers the
  form's submit action, or the oldest pending \<^verbatim>\<open>sendEmail\<close> call resolves and its
  \<^verbatim>\<open>handleSubmit\<close> continues.
\<close>

datatype event = Change field jsstring | Submit | Resolve

fun step :: "event \<Rightarrow> demoModal \<Rightarrow> demoModal" where
  "step (Change f v) s = s\<lparr>formData := handleChange f v (formData s)\<rparr>"
| "step Submit s = form_submit s"
| "step Resolve s =
     (case in_flight s of
        [] \<Rightarrow> s
      | d # ds \<Rightarrow> handleSubmit_resume (sendEmail d) (s\<lparr>in_flight := ds\<rparr>))"

definition run :: "event list \<Rightarrow> demoModal \<Rightarrow> demoModal" where
  "run es s = foldl (\<lambda>s e. step e s) s es"

text \<open>The two checks of \<^verbatim>\<open>handleSubmit\<close> both pass.\<close>

definition passes_validation :: "form_data \<Rightarrow> bool" where
  "passes_validation fd =
     (name fd \<noteq> [] \<and> email fd \<noteq> [] \<and> organization fd \<noteq> [] \<and> validateEmail (email fd))"

text \<open>A filled-in form, typed field by field, for the examples.\<close>

definition filled :: "jsstring \<Rightarrow> demoModal" where
  "filled address =
     run [Change Name ''Ada'', Change Email address, Change Organization ''Orbis'']
       DemoModal_mount"

section \<open>useOnScreen: the visibility tracker\<close>

text \<open>
  What the hook (lines 5 to 34) reads of an \<^verbatim>\<open>IntersectionObserverEntry\<close> is its
  \<^verbatim>\<open>isIntersecting\<close> flag. The entry's \<^verbatim>\<open>intersectionRatio\<close>, the visible fraction
  of the target, is carried along because the specification speaks of it; the hook never
  reads it. The observer sets both.
\<close>

record entry =
  entry_isIntersecting :: bool
  entry_intersectionRatio :: real

text \<open>
  The hook's state: the \<^verbatim>\<open>useState(false)\<close> cell it returns, whether the target is
  registered with the observer, and the threshold the observer was created with.
\<close>

record onScreen =
  isIntersecting :: bool
  observing :: bool
  threshold :: real

text \<open>
  The effect on mount: the observer is created with \<^verbatim>\<open>{ threshold }\<close> and the target
  is observed if \<^verbatim>\<open>ref.current\<close> is set (\<open>ref_current\<close>).
\<close>

definition useOnScreen_mount :: "real \<Rightarrow> bool \<Rightarrow> onScreen" where
  "useOnScreen_mount t ref_current =
     \<lparr>isIntersecting = False, observing = ref_current, threshold = t\<rparr>"

text \<open>
  The observer's callback (lines 10 to 17). It is called with the array of the entries
  queued since the last call, and its parameter \<^verbatim>\<open>([entry])\<close> binds the first of them:
  the entries after the first are not read. On an empty array \<^verbatim>\<open>entry\<close> would be
  undefined and reading its flag would throw.
\<close>

datatype js_error = TypeError

definition observer_callback :: "bool \<Rightarrow> entry list \<Rightarrow> onScreen \<Rightarrow> js_error + onScreen" where
  "observer_callback ref_current entries s =
     (case entries of
        [] \<Rightarrow> Inl TypeError
      | e # _ \<Rightarrow>
          Inr (if entry_isIntersecting e
               then (let s1 = s\<lparr>isIntersecting := True\<rparr>
                     in if ref_current then s1\<lparr>observing := False\<rparr> else s1)
               else s))"

text \<open>
  The observer calls back only when entries are queued, and reports on a target only
  while the target is observed. An exception of the callback would leave the state as
  it was.
\<close>

definition deliver :: "bool \<Rightarrow> entry list \<Rightarrow> onScreen \<Rightarrow> onScreen" where
  "deliver ref_current entries s =
     (if observing s \<and> entries \<noteq> []
      then (case observer_callback ref_current entries s of Inl _ \<Rightarrow> s | Inr s' \<Rightarrow> s')
      else s)"

text \<open>The calls of the callback one after the other, each with its array of entries.\<close>

definition observe_all :: "bool \<Rightarrow> entry list list \<Rightarrow> onScreen \<Rightarrow> onScreen" where
  "observe_all ref_current batches s = foldl (\<lambda>s b. deliver ref_current b s) s batches"

section \<open>App and Toast: the notification and its timer\<close>

text \<open>The \<^verbatim>\<open>toast\<close> state of \<^verbatim>\<open>App\<close> (line 685): \<^verbatim>\<open>{ message, type } | null\<close>.\<close>

record toast_props =
  toast_message :: jsstring
  toast_kind :: toast_type

text \<open>
  \<^verbatim>\<open>App\<close>'s two state cells, the deadline of the \<^verbatim>\<open>setTimeout\<close> that the mounted
  \<^verbatim>\<open>Toast\<close> holds (none when it holds none), and the clock, in milliseconds.
\<close>

record app =
  isModalOpen :: bool
  toast :: "toast_props option"
  timer :: "nat option"
  now :: nat

definition App_mount :: app where
  "App_mount = \<lparr>isModalOpen = False, toast = None, timer = None, now = 0\<rparr>"

text \<open>
  A render of \<^verbatim>\<open>App\<close> (lines 691 to 740) and the effects that follow it.
  \<^verbatim>\<open>Toast\<close> is rendered exactly when \<^verbatim>\<open>toast\<close> is not null, always at the same
  place, with \<^verbatim>\<open>onClose={() => setToast(null)}\<close>: a new function at every render. The
  effect of \<^verbatim>\<open>Toast\<close> (lines 66 to 71) depends on \<^verbatim>\<open>[onClose]\<close>, so after every
  render of \<^verbatim>\<open>App\<close> that keeps a toast its cleanup runs (\<^verbatim>\<open>clearTimeout\<close>) and the
  effect runs again (\<^verbatim>\<open>setTimeout(..., 5000)\<close>); when the toast appears the effect runs;
  when it goes the cleanup runs.
\<close>

definition Toast_cleanup :: "app \<Rightarrow> app" where
  "Toast_cleanup s = s\<lparr>timer := None\<rparr>"

definition Toast_effect :: "app \<Rightarrow> app" where
  "Toast_effect s = s\<lparr>timer := Some (now s + 5000)\<rparr>"

definition render :: "bool \<Rightarrow> app \<Rightarrow> app" where
  "render was_shown s =
     (let s1 = (if was_shown then Toast_cleanup s else s)
      in if toast s \<noteq> None then Toast_effect s1 else s1)"

text \<open>
  The state setters. Setting a cell to the value it holds renders nothing; an object
  literal is a new value every time.
\<close>

definition setToast :: "toast_props option \<Rightarrow> app \<Rightarrow> app" where
  "setToast v s =
     (if v = None \<and> toast s = None then s else render (toast s \<noteq> None) (s\<lparr>toast := v\<rparr>))"

definition setIsModalOpen :: "bool \<Rightarrow> app \<Rightarrow> app" where
  "setIsModalOpen b s =
     (if isModalOpen s = b then s else render (toast s \<noteq> None) (s\<lparr>isModalOpen := b\<rparr>))"

text \<open>\<^verbatim>\<open>showToast\<close> of \<^verbatim>\<open>App\<close> (lines 687 to 689).\<close>

definition showToast :: "toast_type \<Rightarrow> jsstring \<Rightarrow> app \<Rightarrow> app" where
  "showToast ty msg s = setToast (Some \<lparr>toast_message = msg, toast_kind = ty\<rparr>) s"

text \<open>
  \<open>d\<close> milliseconds pass with no other event. A timer whose deadline falls in them fires
  at its deadline and calls \<^verbatim>\<open>onClose\<close>, that is \<^verbatim>\<open>setToast(null)\<close>.
\<close>

definition wait :: "nat \<Rightarrow> app \<Rightarrow> app" where
  "wait d s =
     (let t = now s + d in
      case timer s of
        None \<Rightarrow> s\<lparr>now := t\<rparr>
      | Some deadline \<Rightarrow>
          if deadline \<le> t then (setToast None (s\<lparr>now := deadline\<rparr>))\<lparr>now := t\<rparr>
          else s\<lparr>now := t\<rparr>)"

text \<open>
  What happens to the page: a toast is shown, a "book a demo" button opens the modal
  (lines 725 to 734), the modal closes (line 737), time passes.
\<close>

datatype app_event = Show toast_type jsstring | OpenModal | CloseModal | Wait nat

fun app_step :: "app_event \<Rightarrow> app \<Rightarrow> app" where
  "app_step (Show ty msg) s = showToast ty msg s"
| "app_step OpenModal s = setIsModalOpen True s"
| "app_step CloseModal s = setIsModalOpen False s"
| "app_step (Wait d) s = wait d s"

definition app_run :: "app_event list \<Rightarrow> app \<Rightarrow> app" where
  "app_run es s = foldl (\<lambda>s e. app_step e s) s es"

section \<open>Auxiliary notions for the statements\<close>

text \<open>
  At most one \<^verbatim>\<open>sendEmail\<close> call is pending, and \<^verbatim>\<open>isSending\<close> says whether one is.
\<close>

definition settled :: "demoModal \<Rightarrow> bool" where
  "settled s = (length (in_flight s) \<le> 1 \<and> isSending s = (in_flight s \<noteq> []))"

text \<open>The target is observed exactly while the hook has a target and has not fired.\<close>

definition tracking :: "bool \<Rightarrow> onScreen \<Rightarrow> bool" where
  "tracking ref_current s = (observing s = (ref_current \<and> \<not> isIntersecting s))"

text \<open>The flag of the entry the callback reads of an array of entries.\<close>

definition first_flag :: "entry list \<Rightarrow> bool" where
  "first_flag entries = (case entries of [] \<Rightarrow> False | e # _ \<Rightarrow> entry_isIntersecting e)"

text \<open>
  How an observer with one positive threshold \<open>t\<close> sets the flag of an entry: set exactly
  when the visible fraction has reached \<open>t\<close>. The hook relies on it; nothing in the
  source says so.
\<close>

definition flag_by_threshold :: "real \<Rightarrow> entry \<Rightarrow> bool" where
  "flag_by_threshold t e = (entry_isIntersecting e = (t \<le> entry_intersectionRatio e))"

text \<open>Two entries for the examples: the target half visible, and the target off screen.\<close>

definition scrolled_in :: entry where
  "scrolled_in = \<lparr>entry_isIntersecting = True, entry_intersectionRatio = 1 / 2\<rparr>"

definition scrolled_out :: entry where
  "scrolled_out = \<lparr>entry_isIntersecting = False, entry_intersectionRatio = 0\<rparr>"

text \<open>The toast a failed delivery shows.\<close>

definition failed_toast :: toast_props where
  "failed_toast =
     \<lparr>toast_message = ''Failed to send. Please try again.'', toast_kind = ToastError\<rparr>"

section \<open>The matcher decides the language\<close>

lemma conc_Nil: "[] \<in> conc A B \<longleftrightarrow> [] \<in> A \<and> [] \<in> B"
  by (auto simp: conc_def)

lemma conc_Cons:
  "c # s \<in> conc A B \<longleftrightarrow>
     ([] \<in> A \<and> c # s \<in> B) \<or> (\<exists>u v. s = u @ v \<and> c # u \<in> A \<and> v \<in> B)"
  by (auto simp: conc_def Cons_eq_append_conv)

lemma star_Cons_split:
  assumes "w \<in> star A" and "w = c # s"
  shows "\<exists>u v. s = u @ v \<and> c # u \<in> A \<and> v \<in> star A"
  using assms
proof (induction arbitrary: s rule: star.induct)
  case star_nil
  then show ?case by simp
next
  case (star_app u v)
  show ?case
  proof (cases u)
    case Nil
    with star_app show ?thesis by simp
  next
    case (Cons a u')
    with star_app.prems have "s = u' @ v" and "a = c" by simp_all
    with Cons star_app.hyps show ?thesis by blast
  qed
qed

lemma star_Cons:
  "c # s \<in> star A \<longleftrightarrow> (\<exists>u v. s = u @ v \<and> c # u \<in> A \<and> v \<in> star A)"
proof
  assume "c # s \<in> star A"
  then show "\<exists>u v. s = u @ v \<and> c # u \<in> A \<and> v \<in> star A"
    by (rule star_Cons_split) simp
next
  assume "\<exists>u v. s = u @ v \<and> c # u \<in> A \<and> v \<in> star A"
  then obtain u v where "s = u @ v" "c # u \<in> A" "v \<in> star A" by blast
  then show "c # s \<in> star A" using star_app [of "c # u" A v] by simp
qed

lemma nullable_lang: "nullable r \<longleftrightarrow> [] \<in> lang r"
  by (induction r) (auto simp: conc_Nil intro: star_nil)

lemma deriv_lang: "s \<in> lang (deriv c r) \<longleftrightarrow> c # s \<in> lang r"
proof (induction r arbitrary: s)
  case (Seq r1 r2)
  have left: "s \<in> conc (lang (deriv c r1)) (lang r2) \<longleftrightarrow>
      (\<exists>u v. s = u @ v \<and> c # u \<in> lang r1 \<and> v \<in> lang r2)"
    by (auto simp: conc_def Seq.IH(1))
  show ?case
    by (simp add: conc_Cons nullable_lang Seq.IH(2) left del: nullable.simps) blast
next
  case (Star r)
  have "s \<in> conc (lang (deriv c r)) (star (lang r)) \<longleftrightarrow>
      (\<exists>u v. s = u @ v \<and> c # u \<in> lang r \<and> v \<in> star (lang r))"
    by (auto simp: conc_def Star.IH)
  then show ?case by (simp add: star_Cons)
qed auto

lemma foldl_deriv_lang: "nullable (foldl (\<lambda>r c. deriv c r) r s) \<longleftrightarrow> s \<in> lang r"
  by (induction s arbitrary: r) (simp_all add: nullable_lang deriv_lang)

lemma test_lang: "test r s \<longleftrightarrow> s \<in> lang r"
  by (simp add: test_def foldl_deriv_lang)

section \<open>What every accepted address looks like\<close>

lemma dotted_conc_left: "dotted A \<Longrightarrow> dotted (conc A B)"
  by (auto simp: dotted_def conc_def)

lemma dotted_conc_right: "dotted B \<Longrightarrow> dotted (conc A B)"
  by (auto simp: dotted_def conc_def)

lemma lang_Lit: "lang (Lit c) = {[c]}"
  by (auto simp: Lit_def)

lemma dotted_Lit: "dotted (lang (Lit CHR ''.''))"
  by (simp add: lang_Lit dotted_def)

lemma dotted_ip_literal: "dotted (lang ip_literal)"
  unfolding ip_literal_def lang.simps
  by (intro dotted_conc_right dotted_conc_left dotted_Lit)

lemma dotted_host_name: "dotted (lang host_name)"
  unfolding host_name_def Plus_def lang.simps
  by (intro dotted_conc_left dotted_conc_right dotted_Lit)

lemma local_part_nonempty: "w \<in> lang local_part \<Longrightarrow> w \<noteq> []"
  by (auto simp: local_part_def Plus_def conc_def lang_Lit atom_def)

lemma lang_re_shape:
  assumes "w \<in> lang re"
  shows "\<exists>l d. w = l @ CHR ''@'' # d \<and> l \<noteq> [] \<and> CHR ''.'' \<in> set d"
proof -
  from assms obtain l d where w: "w = l @ CHR ''@'' # d" and l: "l \<in> lang local_part"
    and d: "d \<in> lang ip_literal \<union> lang host_name"
    by (auto simp: re_def conc_def lang_Lit)
  from d dotted_ip_literal dotted_host_name have "CHR ''.'' \<in> set d"
    by (auto simp: dotted_def)
  with w local_part_nonempty [OF l] show ?thesis by blast
qed

text \<open>Lower-casing produces no code unit below \<^verbatim>\<open>a\<close> that was not there before.\<close>

lemma toLowerChar_below_a:
  assumes "toLowerChar c = a" and "(of_char a :: nat) < 97"
  shows "c = a"
proof (rule ccontr)
  assume neq: "c \<noteq> a"
  let ?n = "of_char c :: nat"
  from assms(1) neq
  have up: "(65 \<le> ?n \<and> ?n \<le> 90) \<or> (192 \<le> ?n \<and> ?n \<le> 222 \<and> ?n \<noteq> 215)"
    and a: "a = char_of (?n + 32)"
    by (auto simp: toLowerChar_def Let_def split: if_splits)
  from up have "?n + 32 < 256" by auto
  with a have "(of_char a :: nat) = ?n + 32" by simp
  with up assms(2) show False by auto
qed

text \<open>
  X1. The address grammar in the specification's words: a non-empty local part, an
  \<^verbatim>\<open>@\<close>, and a domain with at least one dot. Every address \<open>validateEmail\<close>
  accepts has this shape; the converse fails (\<open>spaced_address_invalid\<close>).
\<close>

lemma validateEmail_shape:
  assumes "validateEmail e"
  shows "\<exists>l d. e = l @ CHR ''@'' # d \<and> l \<noteq> [] \<and> CHR ''.'' \<in> set d"
proof -
  from assms have "map toLowerChar e \<in> lang re"
    by (simp add: validateEmail_def toLowerCase_def test_lang)
  then obtain l d where m: "map toLowerChar e = l @ CHR ''@'' # d" and l: "l \<noteq> []"
    and dot: "CHR ''.'' \<in> set d"
    using lang_re_shape by blast
  from m obtain l' c d' where e: "e = l' @ c # d'" and l': "map toLowerChar l' = l"
    and c: "toLowerChar c = CHR ''@''" and d': "map toLowerChar d' = d"
    by (auto simp: map_eq_append_conv map_eq_Cons_conv)
  from c have "c = CHR ''@''" by (rule toLowerChar_below_a) simp
  moreover from dot d' obtain x where "x \<in> set d'" and "toLowerChar x = CHR ''.''" by auto
  then have "CHR ''.'' \<in> set d'" using toLowerChar_below_a [of x "CHR ''.''"] by simp
  moreover from l l' have "l' \<noteq> []" by auto
  ultimately show ?thesis using e by blast
qed

lemma test_ok_valid: "validateEmail ''test@ok.com''"
  by code_simp

lemma validateEmail_shape_witness:
  "\<exists>l d. ''test@ok.com'' = l @ CHR ''@'' # d \<and> l \<noteq> [] \<and> CHR ''.'' \<in> set d"
  using validateEmail_shape [OF test_ok_valid] .

lemma empty_invalid: "\<not> validateEmail []"
  by code_simp

lemma spaced_address_invalid: "\<not> validateEmail ''a b@c.de''"
  by code_simp

section \<open>The mock transport\<close>

lemma includes_str_sublist: "includes_str s sub \<longleftrightarrow> sublist sub s"
  by (induction s) (auto simp: sublist_Cons_right)

lemma includes_str_iff: "includes_str s sub \<longleftrightarrow> (\<exists>p q. s = p @ sub @ q)"
  by (simp add: includes_str_sublist sublist_def)

text \<open>
  C2. Whatever the form data, \<open>sendEmail\<close> resolves to the failure value
  (\<^verbatim>\<open>success: false\<close> with the failure message) exactly when the email field contains
  \<^verbatim>\<open>fail\<close> as a substring, and to the success value (\<^verbatim>\<open>success: true\<close> with the
  success message) exactly when it does not.
\<close>

theorem sendEmail_fails_iff_email_contains_fail:
  "(sendEmail data = \<lparr>success = False, result_message = ''Failed to send. Please try again.''\<rparr>
      \<longleftrightarrow> (\<exists>p q. email data = p @ ''fail'' @ q))
   \<and> (sendEmail data
        = \<lparr>success = True, result_message = ''Successful, we'll get back to you soon!''\<rparr>
      \<longleftrightarrow> \<not> (\<exists>p q. email data = p @ ''fail'' @ q))"
  by (simp add: sendEmail_def includes_str_iff)

theorem sendEmail_fails_iff_email_contains_fail_witness:
  "sendEmail \<lparr>name = ''Ada'', email = ''test@fail.com'', organization = ''Orbis'', message = []\<rparr>
     = \<lparr>success = False, result_message = ''Failed to send. Please try again.''\<rparr>
   \<and> sendEmail \<lparr>name = ''Ada'', email = ''test@ok.com'', organization = ''Orbis'', message = []\<rparr>
     = \<lparr>success = True, result_message = ''Successful, we'll get back to you soon!''\<rparr>"
proof -
  let ?bad = "\<lparr>name = ''Ada'', email = ''test@fail.com'', organization = ''Orbis'', message = []\<rparr>"
  let ?good = "\<lparr>name = ''Ada'', email = ''test@ok.com'', organization = ''Orbis'', message = []\<rparr>"
  have "email ?bad = ''test@'' @ ''fail'' @ ''.com''" by simp
  then have "\<exists>p q. email ?bad = p @ ''fail'' @ q" by blast
  then have 1: "sendEmail ?bad
      = \<lparr>success = False, result_message = ''Failed to send. Please try again.''\<rparr>"
    using sendEmail_fails_iff_email_contains_fail [of ?bad] by blast
  have "\<not> includes_str ''test@ok.com'' ''fail''" by code_simp
  then have "\<not> (\<exists>p q. email ?good = p @ ''fail'' @ q)"
    by (simp add: includes_str_iff)
  then have 2: "sendEmail ?good
      = \<lparr>success = True, result_message = ''Successful, we'll get back to you soon!''\<rparr>"
    using sendEmail_fails_iff_email_contains_fail [of ?good] by blast
  from 1 2 show ?thesis by simp
qed

section \<open>Validation in handleSubmit\<close>

lemma filled_state:
  "filled a = \<lparr>formData = \<lparr>name = ''Ada'', email = a, organization = ''Orbis'', message = []\<rparr>,
      isSending = False, in_flight = [], trace = []\<rparr>"
  by (simp add: filled_def run_def DemoModal_mount_def)

text \<open>
  C3. When \<open>handleSubmit\<close> runs with \<open>name\<close>, \<open>email\<close> or \<open>organization\<close> empty, all it
  does is call \<open>showToast\<close> once, with kind error and the text
  \<^verbatim>\<open>Please fill in all required fields.\<close>: no call of \<open>sendEmail\<close> is made or left
  pending, and nothing else of the state changes.
\<close>

theorem missing_fields_toast_and_no_delivery:
  assumes "name (formData s) = [] \<or> email (formData s) = [] \<or> organization (formData s) = []"
  shows "handleSubmit_begin s =
           s\<lparr>trace := trace s @ [ShowToast ToastError ''Please fill in all required fields.'']\<rparr>"
  using assms by (simp add: handleSubmit_begin_def prop_showToast_def)

theorem missing_fields_toast_and_no_delivery_witness:
  "handleSubmit_begin (filled [])
     = (filled [])\<lparr>trace := [ShowToast ToastError ''Please fill in all required fields.'']\<rparr>"
  using missing_fields_toast_and_no_delivery [of "filled []"]
  by (simp add: filled_state)

lemma bad_address_invalid: "\<not> validateEmail ''bad-address''"
  by code_simp

text \<open>
  C4. When \<open>handleSubmit\<close> runs with \<open>name\<close>, \<open>email\<close> and \<open>organization\<close> non-empty and
  an email that \<open>validateEmail\<close> rejects (\<^verbatim>\<open>bad-address\<close>, say), all it does is call
  \<open>showToast\<close> once, with kind error and the text \<^verbatim>\<open>Please enter a valid email address.\<close>:
  no call of \<open>sendEmail\<close> is made or left pending. Every email that is not of the form
  local part, \<^verbatim>\<open>@\<close>, domain with a dot is among the rejected ones (X1 above).
\<close>

theorem invalid_email_toast_and_no_delivery:
  assumes "name (formData s) \<noteq> []" and "email (formData s) \<noteq> []"
    and "organization (formData s) \<noteq> []" and "\<not> validateEmail (email (formData s))"
  shows "handleSubmit_begin s =
           s\<lparr>trace := trace s @ [ShowToast ToastError ''Please enter a valid email address.'']\<rparr>"
  using assms by (simp add: handleSubmit_begin_def prop_showToast_def)

theorem invalid_email_toast_and_no_delivery_witness:
  "handleSubmit_begin (filled ''bad-address'')
     = (filled ''bad-address'')\<lparr>trace :=
          [ShowToast ToastError ''Please enter a valid email address.'']\<rparr>"
  using invalid_email_toast_and_no_delivery [of "filled ''bad-address''"] bad_address_invalid
  by (simp add: filled_state)

lemma bad_invalid: "\<not> validateEmail ''bad''"
  by code_simp

text \<open>
  C5. When a required field is empty and the email is invalid as well, \<open>handleSubmit\<close>
  shows the missing-fields toast and not the invalid-email one: the emptiness check comes
  first and returns.
\<close>

theorem missing_fields_takes_precedence:
  assumes "name (formData s) = [] \<or> email (formData s) = [] \<or> organization (formData s) = []"
    and "\<not> validateEmail (email (formData s))"
  shows "trace (handleSubmit_begin s)
           = trace s @ [ShowToast ToastError ''Please fill in all required fields.'']
         \<and> ShowToast ToastError ''Please enter a valid email address.''
             \<notin> set (drop (length (trace s)) (trace (handleSubmit_begin s)))"
  using assms by (simp add: handleSubmit_begin_def prop_showToast_def)

theorem missing_fields_takes_precedence_witness:
  "trace (handleSubmit_begin (step (Change Name []) (filled ''bad'')))
     = [ShowToast ToastError ''Please fill in all required fields.'']"
  using missing_fields_takes_precedence [of "step (Change Name []) (filled ''bad'')"] bad_invalid
  by (simp add: filled_state)

lemma user_FAIL_valid: "validateEmail ''user@FAIL.com''"
  by code_simp

lemma user_FAIL_lower: "includes_str (toLowerCase ''user@FAIL.com'') ''fail''"
  by code_simp

lemma user_FAIL_raw: "\<not> includes_str ''user@FAIL.com'' ''fail''"
  by code_simp

text \<open>
  C10. \<open>validateEmail\<close> lower-cases the email before matching; \<open>sendEmail\<close> looks for
  \<^verbatim>\<open>fail\<close> in the email as typed. So with \<open>name\<close> and \<open>organization\<close> non-empty and a
  valid email that contains \<^verbatim>\<open>fail\<close> only once lower-cased (\<^verbatim>\<open>user@FAIL.com\<close>),
  validation passes, \<open>sendEmail\<close> is called, and it resolves to the success value.
\<close>

theorem uppercase_fail_is_delivered_and_succeeds:
  assumes "name (formData s) \<noteq> []" and "organization (formData s) \<noteq> []"
    and "validateEmail (email (formData s))"
    and "includes_str (toLowerCase (email (formData s))) ''fail''"
    and "\<not> includes_str (email (formData s)) ''fail''"
  shows "handleSubmit_begin s =
           s\<lparr>isSending := True, in_flight := in_flight s @ [formData s],
             trace := trace s @ [SendEmail (formData s)]\<rparr>
         \<and> sendEmail (formData s) =
             \<lparr>success = True, result_message = ''Successful, we'll get back to you soon!''\<rparr>"
proof -
  from assms(3) have "email (formData s) \<noteq> []"
    using empty_invalid by auto
  with assms show ?thesis
    by (simp add: handleSubmit_begin_def sendEmail_def Let_def)
qed

theorem uppercase_fail_is_delivered_and_succeeds_witness:
  "handleSubmit_begin (filled ''user@FAIL.com'') =
     (filled ''user@FAIL.com'')\<lparr>isSending := True,
        in_flight := [formData (filled ''user@FAIL.com'')],
        trace := [SendEmail (formData (filled ''user@FAIL.com''))]\<rparr>
   \<and> sendEmail (formData (filled ''user@FAIL.com'')) =
       \<lparr>success = True, result_message = ''Successful, we'll get back to you soon!''\<rparr>"
  using uppercase_fail_is_delivered_and_succeeds [of "filled ''user@FAIL.com''"]
    user_FAIL_valid user_FAIL_lower user_FAIL_raw
  by (simp add: filled_state)

section \<open>The submission flow\<close>

lemma run_Nil: "run [] s = s"
  by (simp add: run_def)

lemma run_Cons: "run (e # es) s = run es (step e s)"
  by (simp add: run_def)

lemma run_append: "run (es @ es') s = run es' (run es s)"
  by (simp add: run_def)

lemma step_while_sending:
  assumes "isSending s" and "e \<noteq> Resolve"
  shows "isSending (step e s) \<and> trace (step e s) = trace s \<and> in_flight (step e s) = in_flight s"
  using assms by (cases e) (simp_all add: form_submit_def submit_disabled_def)

lemma run_while_sending:
  assumes "isSending s" and "Resolve \<notin> set es"
  shows "isSending (run es s) \<and> trace (run es s) = trace s \<and> in_flight (run es s) = in_flight s"
  using assms
proof (induction es arbitrary: s)
  case Nil
  then show ?case by (simp add: run_Nil)
next
  case (Cons e es)
  from Cons.prems have e: "e \<noteq> Resolve" and es: "Resolve \<notin> set es" by auto
  from step_while_sending [OF Cons.prems(1) e] Cons.IH [of "step e s"] es
  show ?case by (simp add: run_Cons)
qed

lemma submit_valid:
  assumes "\<not> isSending s" and "passes_validation (formData s)"
  shows "step Submit s = s\<lparr>isSending := True, in_flight := in_flight s @ [formData s],
             trace := trace s @ [SendEmail (formData s)]\<rparr>"
  using assms
  by (simp add: form_submit_def submit_disabled_def handleSubmit_begin_def
      passes_validation_def Let_def)

lemma filled_ok_passes: "passes_validation (formData (filled ''test@ok.com''))"
  using test_ok_valid by (simp add: passes_validation_def filled_state)

text \<open>
  C1. Take a modal that is not sending and whose form passes validation. The submit
  action puts it in the Sending state with one call of \<open>sendEmail\<close>. Whatever the user
  does then before that call resolves (submit again, any number of times, or edit
  fields), no further call of \<open>sendEmail\<close> is made: the calls recorded are the earlier
  ones and this one, one call is pending, and the modal is still sending. The guard is
  the disabled submit button; the handler has none of its own (X2 below).
\<close>

theorem one_delivery_while_sending:
  assumes "\<not> isSending s" and "passes_validation (formData s)" and "Resolve \<notin> set es"
  shows "isSending (step Submit s)
       \<and> trace (run es (step Submit s)) = trace s @ [SendEmail (formData s)]
       \<and> in_flight (run es (step Submit s)) = in_flight s @ [formData s]
       \<and> isSending (run es (step Submit s))"
proof -
  have sub: "step Submit s = s\<lparr>isSending := True, in_flight := in_flight s @ [formData s],
             trace := trace s @ [SendEmail (formData s)]\<rparr>"
    using assms(1,2) by (rule submit_valid)
  then have sending: "isSending (step Submit s)" by simp
  from run_while_sending [OF sending assms(3)] sub sending show ?thesis by simp
qed

theorem one_delivery_while_sending_witness:
  "trace (run [Submit, Change Message ''hello'', Submit] (step Submit (filled ''test@ok.com'')))
     = [SendEmail \<lparr>name = ''Ada'', email = ''test@ok.com'', organization = ''Orbis'',
                   message = []\<rparr>]"
  using one_delivery_while_sending
    [of "filled ''test@ok.com''" "[Submit, Change Message ''hello'', Submit]"] filled_ok_passes
  by (simp add: filled_state)

text \<open>
  X2. \<open>handleSubmit\<close> does not look at \<open>isSending\<close>: run twice in a row on a valid
  form, with nothing in between, it calls \<open>sendEmail\<close> twice.
\<close>

lemma handleSubmit_itself_has_no_guard:
  assumes "passes_validation (formData s)"
  shows "trace (handleSubmit_begin (handleSubmit_begin s))
           = trace s @ [SendEmail (formData s), SendEmail (formData s)]"
  using assms by (simp add: handleSubmit_begin_def passes_validation_def Let_def)

lemma handleSubmit_itself_has_no_guard_witness:
  "trace (handleSubmit_begin (handleSubmit_begin (filled ''test@ok.com'')))
     = [SendEmail (formData (filled ''test@ok.com'')),
        SendEmail (formData (filled ''test@ok.com''))]"
  using handleSubmit_itself_has_no_guard [of "filled ''test@ok.com''"] filled_ok_passes
  by (simp add: filled_state)

lemma settled_step: "settled s \<Longrightarrow> settled (step e s)"
proof (cases e)
  case (Change f v)
  assume "settled s"
  with Change show ?thesis by (simp add: settled_def)
next
  case Submit
  assume "settled s"
  with Submit show ?thesis
    by (auto simp: settled_def form_submit_def submit_disabled_def handleSubmit_begin_def
        prop_showToast_def Let_def)
next
  case Resolve
  assume "settled s"
  with Resolve show ?thesis
    by (cases "in_flight s")
      (auto simp: settled_def handleSubmit_resume_def prop_showToast_def prop_onClose_def
        Let_def)
qed

text \<open>
  X3. Whatever happens to a modal after it is mounted, at most one \<open>sendEmail\<close> call is
  pending, and \<open>isSending\<close> holds exactly while one is.
\<close>

lemma at_most_one_delivery_in_flight: "settled (run es DemoModal_mount)"
proof (induction es rule: rev_induct)
  case Nil
  show ?case by (simp add: run_Nil settled_def DemoModal_mount_def)
next
  case (snoc e es)
  then show ?case by (simp add: run_append run_Cons run_Nil settled_step)
qed

lemma submit_then_resolve:
  assumes "\<not> isSending s" and "in_flight s = []" and "passes_validation (formData s)"
  shows "run [Submit, Resolve] s
           = handleSubmit_resume (sendEmail (formData s))
               (s\<lparr>isSending := True, trace := trace s @ [SendEmail (formData s)],
                  in_flight := []\<rparr>)"
  using submit_valid [OF assms(1,3)] assms(2) by (simp add: run_Cons run_Nil)

lemma test_ok_success: "success (sendEmail (formData (filled ''test@ok.com'')))"
  unfolding filled_state sendEmail_def by code_simp

text \<open>
  C6. Take a modal that is not sending, with no call pending and a form that passes
  validation, whose delivery resolves to success (\<^verbatim>\<open>test@ok.com\<close>, say). Submitting
  and letting the delivery resolve calls \<open>sendEmail\<close> once, then \<open>showToast\<close> once with
  kind success and the message the transport returned, then \<open>onClose\<close> once, and
  nothing else.
\<close>

theorem success_toast_then_close_once:
  assumes "\<not> isSending s" and "in_flight s = []" and "passes_validation (formData s)"
    and "success (sendEmail (formData s))"
  shows "trace (run [Submit, Resolve] s)
           = trace s @ [SendEmail (formData s),
                        ShowToast ToastSuccess (result_message (sendEmail (formData s))),
                        OnClose]
         \<and> \<not> isSending (run [Submit, Resolve] s)"
  using assms(4)
  by (simp add: submit_then_resolve [OF assms(1,2,3)] handleSubmit_resume_def
      prop_showToast_def prop_onClose_def Let_def)

theorem success_toast_then_close_once_witness:
  "trace (run [Submit, Resolve] (filled ''test@ok.com''))
     = [SendEmail \<lparr>name = ''Ada'', email = ''test@ok.com'', organization = ''Orbis'',
                   message = []\<rparr>,
        ShowToast ToastSuccess ''Successful, we'll get back to you soon!'',
        OnClose]"
proof -
  let ?s = "filled ''test@ok.com''"
  have msg: "result_message (sendEmail (formData ?s)) = ''Successful, we'll get back to you soon!''"
    using test_ok_success by (simp add: sendEmail_def split: if_splits)
  from success_toast_then_close_once [of ?s] filled_ok_passes test_ok_success
  have "trace (run [Submit, Resolve] ?s)
          = trace ?s @ [SendEmail (formData ?s),
              ShowToast ToastSuccess (result_message (sendEmail (formData ?s))), OnClose]"
    by (simp add: filled_state)
  then show ?thesis unfolding msg by (simp add: filled_state)
qed

lemma test_fail_valid: "validateEmail ''test@fail.com''"
  by code_simp

lemma filled_fail_passes: "passes_validation (formData (filled ''test@fail.com''))"
  using test_fail_valid by (simp add: passes_validation_def filled_state)

lemma test_fail_failure: "\<not> success (sendEmail (formData (filled ''test@fail.com'')))"
  unfolding filled_state sendEmail_def by code_simp

text \<open>
  C7. Take a modal that is not sending, with no call pending and a form that passes
  validation, whose delivery resolves to failure (\<^verbatim>\<open>test@fail.com\<close>, say). Submitting
  and letting the delivery resolve calls \<open>sendEmail\<close> once, then \<open>showToast\<close> once with
  kind error and the message the transport returned; \<open>onClose\<close> is not called, the four
  fields hold what they held at submission, and the modal is no longer sending.
\<close>

theorem failure_toast_dialog_open_fields_kept:
  assumes "\<not> isSending s" and "in_flight s = []" and "passes_validation (formData s)"
    and "\<not> success (sendEmail (formData s))"
  shows "trace (run [Submit, Resolve] s)
           = trace s @ [SendEmail (formData s),
                        ShowToast ToastError (result_message (sendEmail (formData s)))]
         \<and> OnClose \<notin> set (drop (length (trace s)) (trace (run [Submit, Resolve] s)))
         \<and> formData (run [Submit, Resolve] s) = formData s
         \<and> \<not> isSending (run [Submit, Resolve] s)"
  using assms(4)
  by (simp add: submit_then_resolve [OF assms(1,2,3)] handleSubmit_resume_def
      prop_showToast_def Let_def)

theorem failure_toast_dialog_open_fields_kept_witness:
  "trace (run [Submit, Resolve] (filled ''test@fail.com''))
     = [SendEmail \<lparr>name = ''Ada'', email = ''test@fail.com'', organization = ''Orbis'',
                   message = []\<rparr>,
        ShowToast ToastError ''Failed to send. Please try again.'']
   \<and> formData (run [Submit, Resolve] (filled ''test@fail.com''))
       = \<lparr>name = ''Ada'', email = ''test@fail.com'', organization = ''Orbis'', message = []\<rparr>"
proof -
  let ?s = "filled ''test@fail.com''"
  have msg: "result_message (sendEmail (formData ?s)) = ''Failed to send. Please try again.''"
    using test_fail_failure by (simp add: sendEmail_def split: if_splits)
  from failure_toast_dialog_open_fields_kept [of ?s] filled_fail_passes test_fail_failure
  have "trace (run [Submit, Resolve] ?s)
          = trace ?s @ [SendEmail (formData ?s),
              ShowToast ToastError (result_message (sendEmail (formData ?s)))]
        \<and> formData (run [Submit, Resolve] ?s) = formData ?s"
    by (simp add: filled_state)
  then show ?thesis unfolding msg by (simp add: filled_state)
qed

section \<open>The visibility tracker\<close>

lemma observe_all_Nil: "observe_all rc [] s = s"
  by (simp add: observe_all_def)

lemma observe_all_Cons: "observe_all rc (b # bs) s = observe_all rc bs (deliver rc b s)"
  by (simp add: observe_all_def)

lemma observe_all_append:
  "observe_all rc (bs @ bs') s = observe_all rc bs' (observe_all rc bs s)"
  by (simp add: observe_all_def)

lemma deliver_keeps_signal: "isIntersecting s \<Longrightarrow> isIntersecting (deliver rc b s)"
  by (cases b) (simp_all add: deliver_def observer_callback_def Let_def)

lemma observe_all_keeps_signal: "isIntersecting s \<Longrightarrow> isIntersecting (observe_all rc bs s)"
  by (induction bs arbitrary: s)
    (simp_all add: observe_all_Nil observe_all_Cons deliver_keeps_signal)

lemma tracking_mount: "tracking rc (useOnScreen_mount t rc)"
  by (simp add: tracking_def useOnScreen_mount_def)

lemma tracking_deliver: "tracking rc s \<Longrightarrow> tracking rc (deliver rc b s)"
  by (cases b) (auto simp: tracking_def deliver_def observer_callback_def Let_def)

lemma deliver_signal:
  "tracking rc s \<Longrightarrow>
     isIntersecting (deliver rc b s) = (isIntersecting s \<or> (rc \<and> first_flag b))"
  by (cases b)
    (auto simp: tracking_def deliver_def observer_callback_def first_flag_def Let_def)

lemma observe_all_signal:
  "tracking rc s \<Longrightarrow>
     tracking rc (observe_all rc bs s) \<and>
     isIntersecting (observe_all rc bs s)
       = (isIntersecting s \<or> (rc \<and> (\<exists>b \<in> set bs. first_flag b)))"
proof (induction bs arbitrary: s)
  case Nil
  then show ?case by (simp add: observe_all_Nil)
next
  case (Cons b bs)
  from Cons.prems have t: "tracking rc (deliver rc b s)" by (rule tracking_deliver)
  from Cons.IH [OF t] deliver_signal [OF Cons.prems, of b]
  show ?case by (auto simp: observe_all_Cons)
qed

lemma mounted_signal:
  "isIntersecting (observe_all rc bs (useOnScreen_mount t rc))
     = (rc \<and> (\<exists>b \<in> set bs. first_flag b))"
  using observe_all_signal [OF tracking_mount, of rc bs t]
  by (simp add: useOnScreen_mount_def)

lemma mounted_signal_stays:
  assumes "isIntersecting (observe_all rc bs (useOnScreen_mount t rc))"
  shows "isIntersecting (observe_all rc (bs @ bs') (useOnScreen_mount t rc))
       \<and> \<not> observing (observe_all rc (bs @ bs') (useOnScreen_mount t rc))"
proof -
  let ?m = "useOnScreen_mount t rc"
  from assms have on: "isIntersecting (observe_all rc (bs @ bs') ?m)"
    by (simp add: observe_all_append observe_all_keeps_signal)
  from observe_all_signal [OF tracking_mount, of rc "bs @ bs'" t]
  have "tracking rc (observe_all rc (bs @ bs') ?m)" by simp
  with on show ?thesis by (simp add: tracking_def)
qed

text \<open>
  With one entry in every array and the flags set by the threshold, the flag the callback
  reads of an array is set exactly when a fraction in the array has reached the threshold.
\<close>

lemma first_flag_single:
  assumes "\<exists>e. b = [e]" and "\<forall>e \<in> set b. flag_by_threshold t e"
  shows "first_flag b = (\<exists>e \<in> set b. t \<le> entry_intersectionRatio e)"
proof -
  from assms(1) obtain e where b: "b = [e]" by blast
  with assms(2) show ?thesis by (simp add: first_flag_def flag_by_threshold_def)
qed

text \<open>
  C8, as the code has it. Take a threshold \<open>t\<close> with \<open>0 < t \<le> 1\<close> and any sequence
  \<open>bs\<close> of calls of the observer's callback, each with one entry, whose flags the
  observer has set by the threshold the hook was mounted with (flag set exactly when the
  visible fraction is at least \<open>t\<close>). Then the hook's signal starts false; after \<open>bs\<close>
  it is true exactly when the hook had a target and some observed fraction of \<open>bs\<close> has
  reached \<open>t\<close>; and once true it stays true under any further calls \<open>bs'\<close>, whatever
  they carry, with the target no longer observed.
\<close>

theorem signal_iff_fraction_reached_threshold:
  assumes "0 < t" and "t \<le> 1"
    and "\<forall>b \<in> set bs. \<exists>e. b = [e]"
    and "\<forall>b \<in> set bs. \<forall>e \<in> set b. flag_by_threshold (threshold (useOnScreen_mount t rc)) e"
  shows "\<not> isIntersecting (useOnScreen_mount t rc)
   \<and> isIntersecting (observe_all rc bs (useOnScreen_mount t rc))
       = (rc \<and> (\<exists>b \<in> set bs. \<exists>e \<in> set b. t \<le> entry_intersectionRatio e))
   \<and> (isIntersecting (observe_all rc bs (useOnScreen_mount t rc)) \<longrightarrow>
        isIntersecting (observe_all rc (bs @ bs') (useOnScreen_mount t rc))
        \<and> \<not> observing (observe_all rc (bs @ bs') (useOnScreen_mount t rc)))"
proof -
  let ?m = "useOnScreen_mount t rc"
  have m: "\<not> isIntersecting ?m" by (simp add: useOnScreen_mount_def)
  have t: "threshold ?m = t" by (simp add: useOnScreen_mount_def)
  have "first_flag b = (\<exists>e \<in> set b. t \<le> entry_intersectionRatio e)" if "b \<in> set bs" for b
    using that assms(3,4) first_flag_single [of b t] unfolding t by blast
  then have "(\<exists>b \<in> set bs. first_flag b)
      = (\<exists>b \<in> set bs. \<exists>e \<in> set b. t \<le> entry_intersectionRatio e)"
    by blast
  then have sig: "isIntersecting (observe_all rc bs ?m)
      = (rc \<and> (\<exists>b \<in> set bs. \<exists>e \<in> set b. t \<le> entry_intersectionRatio e))"
    by (simp add: mounted_signal)
  from m sig mounted_signal_stays [of rc bs t bs'] show ?thesis by blast
qed

theorem signal_iff_fraction_reached_threshold_witness:
  "isIntersecting
     (observe_all True [[scrolled_out], [scrolled_in]] (useOnScreen_mount (1 / 10) True))
   \<and> isIntersecting (observe_all True ([[scrolled_out], [scrolled_in]] @ [[scrolled_out]])
        (useOnScreen_mount (1 / 10) True))
   \<and> \<not> observing (observe_all True ([[scrolled_out], [scrolled_in]] @ [[scrolled_out]])
        (useOnScreen_mount (1 / 10) True))
   \<and> \<not> isIntersecting (observe_all True [[scrolled_out]] (useOnScreen_mount (1 / 10) True))"
proof -
  have rule: "flag_by_threshold (threshold (useOnScreen_mount (1 / 10) True)) scrolled_out"
    "flag_by_threshold (threshold (useOnScreen_mount (1 / 10) True)) scrolled_in"
    by (simp_all add: flag_by_threshold_def useOnScreen_mount_def scrolled_in_def
        scrolled_out_def)
  from signal_iff_fraction_reached_threshold
    [of "1 / 10" "[[scrolled_out], [scrolled_in]]" True "[[scrolled_out]]"] rule
  have later: "isIntersecting
      (observe_all True [[scrolled_out], [scrolled_in]] (useOnScreen_mount (1 / 10) True))
    \<and> isIntersecting (observe_all True ([[scrolled_out], [scrolled_in]] @ [[scrolled_out]])
        (useOnScreen_mount (1 / 10) True))
    \<and> \<not> observing (observe_all True ([[scrolled_out], [scrolled_in]] @ [[scrolled_out]])
        (useOnScreen_mount (1 / 10) True))"
    by (simp add: scrolled_in_def scrolled_out_def)
  from signal_iff_fraction_reached_threshold [of "1 / 10" "[[scrolled_out]]" True "[]"] rule
  have "\<not> isIntersecting (observe_all True [[scrolled_out]] (useOnScreen_mount (1 / 10) True))"
    by (simp add: scrolled_out_def)
  with later show ?thesis by blast
qed

text \<open>
  C8 as stated fails twice. At the threshold 0, a target that is off screen is reported
  with the visible fraction 0, which reaches the threshold 0, and with the flag unset,
  so the signal stays false. And at the threshold 1/10, when one call of the callback
  carries two entries, the target off screen and then the target half visible, a
  fraction has reached the threshold and the signal stays false, since only the first
  entry is read.
\<close>

theorem signal_ignores_fraction_counterexample:
  "\<not> (isIntersecting (observe_all True [[scrolled_out]] (useOnScreen_mount 0 True))
        = (\<exists>b \<in> set [[scrolled_out]]. \<exists>e \<in> set b. 0 \<le> entry_intersectionRatio e))
   \<and> \<not> (isIntersecting
          (observe_all True [[scrolled_out, scrolled_in]] (useOnScreen_mount (1 / 10) True))
        = (\<exists>b \<in> set [[scrolled_out, scrolled_in]].
             \<exists>e \<in> set b. 1 / 10 \<le> entry_intersectionRatio e))"
  by (simp add: observe_all_def deliver_def observer_callback_def useOnScreen_mount_def
      scrolled_in_def scrolled_out_def)

text \<open>
  X6. For every threshold and every sequence of calls of the callback, whatever the
  entries carry, the signal is true exactly when the hook had a target and the first
  entry of some call had its \<^verbatim>\<open>isIntersecting\<close> flag set. Neither the threshold nor a
  visible fraction nor an entry after the first of a call is read.
\<close>

lemma signal_follows_first_flag:
  "isIntersecting (observe_all rc bs (useOnScreen_mount t rc))
     = (rc \<and> (\<exists>b \<in> set bs. first_flag b))
   \<and> isIntersecting (observe_all True [[scrolled_in, scrolled_out]] (useOnScreen_mount t True))
   \<and> \<not> isIntersecting
         (observe_all True [[scrolled_out, scrolled_in]] (useOnScreen_mount t True))"
  by (simp add: mounted_signal first_flag_def scrolled_in_def scrolled_out_def)

section \<open>The notification timer\<close>

lemma app_run_Cons: "app_run (e # es) s = app_run es (app_step e s)"
  by (simp add: app_run_def)

lemma app_run_Nil: "app_run [] s = s"
  by (simp add: app_run_def)

lemmas app_defs = app_run_Cons app_run_Nil App_mount_def showToast_def setToast_def
  setIsModalOpen_def render_def Toast_effect_def Toast_cleanup_def wait_def Let_def

text \<open>
  C9 at its failing input. The dialog is open, a delivery fails and the error toast is
  shown; 3000 ms later the user closes the dialog. \<^verbatim>\<open>App\<close> renders again, \<^verbatim>\<open>Toast\<close>
  gets a new \<^verbatim>\<open>onClose\<close>, its effect clears the timer and starts a new one: the toast
  is still shown 5000 ms and 7999 ms after it appeared, and goes at 8000 ms.
\<close>

theorem toast_outlives_5000ms_when_modal_closes:
  "toast (app_run [OpenModal, Show ToastError ''Failed to send. Please try again.'',
                   Wait 3000, CloseModal, Wait 2000] App_mount) = Some failed_toast
   \<and> toast (app_run [OpenModal, Show ToastError ''Failed to send. Please try again.'',
                     Wait 3000, CloseModal, Wait 4999] App_mount) = Some failed_toast
   \<and> toast (app_run [OpenModal, Show ToastError ''Failed to send. Please try again.'',
                     Wait 3000, CloseModal, Wait 5000] App_mount) = None"
  by (simp add: app_defs failed_toast_def)

text \<open>
  X4. With no other render of \<^verbatim>\<open>App\<close> in between, a toast is shown for 4999 ms and
  gone at 5000 ms.
\<close>

lemma toast_alone_lasts_5000ms:
  "toast (app_run [Show ty msg, Wait 4999] App_mount)
     = Some \<lparr>toast_message = msg, toast_kind = ty\<rparr>
   \<and> toast (app_run [Show ty msg, Wait 5000] App_mount) = None"
  by (simp add: app_defs)

text \<open>
  X5. A toast that replaces another 1000 ms after the first was shown is still there
  4999 ms later and gone 5000 ms later: the first toast's timer was cleared. In any
  state, \<open>showToast\<close> leaves exactly one toast and one timer, due in 5000 ms.
\<close>

lemma replaced_toast_restarts_timer:
  "toast (app_run [Show ty msg, Wait 1000, Show ty' msg', Wait 4999] App_mount)
     = Some \<lparr>toast_message = msg', toast_kind = ty'\<rparr>
   \<and> toast (app_run [Show ty msg, Wait 1000, Show ty' msg', Wait 5000] App_mount) = None
   \<and> toast (showToast ty msg s) = Some \<lparr>toast_message = msg, toast_kind = ty\<rparr>
   \<and> timer (showToast ty msg s) = Some (now s + 5000)"
  by (simp add: app_defs)

end
